theory Spec2Isabelle
  imports Complex_Main
begin

section \<open>BufferedBulkStream: a shallow embedding of lib/BufferedBulkStream.js\<close>

text \<open>
  The stream object of the source is a record that every operation takes and returns.
  Everything the object does to the outside (events emitted with \<open>this.emit\<close>, calls of
  the stream continuation \<open>next\<close>, calls of \<open>client.bulk\<close>) is appended to the trace
  \<open>emitted\<close>, in program order. The two module-level variables of the source
  (\<open>resumeFunction\<close>, declared with \<open>var\<close>, and \<open>writeBufferTotal\<close>, assigned in
  \<open>flush\<close> without any declaration and therefore global as well) are fields of the
  record: they outlive the call that assigns them.
\<close>

subsection \<open>JavaScript values\<close>

text \<open>
  Records, documents and error details are JavaScript values. Number payloads are
  integers here; an object is its list of own properties.
\<close>

datatype jsval =
    JUndefined
  | JNull
  | JBool bool
  | JNum int
  | JStr string
  | JArr "jsval list"
  | JObj "(string \<times> jsval) list"

text \<open>ToBoolean: what \<open>!v\<close> and \<open>if( v )\<close> test.\<close>

fun truthy :: "jsval \<Rightarrow> bool" where
  "truthy JUndefined = False"
| "truthy JNull = False"
| "truthy (JBool b) = b"
| "truthy (JNum n) = (n \<noteq> 0)"
| "truthy (JStr s) = (s \<noteq> [])"
| "truthy (JArr vs) = True"
| "truthy (JObj kvs) = True"

datatype js_type = T_undefined | T_object | T_boolean | T_number | T_string

text \<open>\<open>typeof\<close>; note that \<open>typeof null\<close> is \<open>'object'\<close>, and so is an array's.\<close>

fun typeof :: "jsval \<Rightarrow> js_type" where
  "typeof JUndefined = T_undefined"
| "typeof JNull = T_object"
| "typeof (JBool b) = T_boolean"
| "typeof (JNum n) = T_number"
| "typeof (JStr s) = T_string"
| "typeof (JArr vs) = T_object"
| "typeof (JObj kvs) = T_object"

text \<open>
  Reading one of the properties \<open>_index\<close>, \<open>_type\<close>, \<open>_id\<close>, \<open>data\<close>: an object
  yields its property or \<open>undefined\<close>; an array has none of these names. Reading a
  property of \<open>null\<close> raises a TypeError, which \<open>parseChunk\<close> below makes explicit
  before it reads.
\<close>

fun get_prop :: "jsval \<Rightarrow> string \<Rightarrow> jsval" where
  "get_prop (JObj kvs) k = (case map_of kvs k of None \<Rightarrow> JUndefined | Some v \<Rightarrow> v)"
| "get_prop v k = JUndefined"

datatype js_error = TypeError

subsection \<open>Responses of the backend client, events\<close>

text \<open>
  One entry of \<open>resp.items\<close>: \<open>item.index.status\<close> and \<open>item.index.error\<close>.
\<close>

record item =
  item_status :: int
  item_error :: jsval

text \<open>
  A response object with its \<open>items\<close> property: \<open>None\<close> when the property is missing
  (or falsy), the array otherwise. The callback's \<open>resp\<close> argument is a
  \<open>response option\<close>, \<open>None\<close> for a missing (falsy) response.
\<close>

datatype response = Response "item list option"

text \<open>
  \<open>new IndexError( message, payload, resp )\<close>: the constructor lives in
  lib/IndexError.js; an error object is represented by the three arguments it was built
  from. The third argument is the whole response at batch level and the single item at
  item level. A validation error is emitted as a plain string.
\<close>

datatype resp_arg = RespWhole "response option" | RespItem item

datatype error_arg = Msg string | IndexError jsval jsval resp_arg

record snapshot =
  snap_written :: rat
  snap_indexed :: rat
  snap_errored :: rat
  snap_retries :: rat
  snap_active_requests :: rat
  snap_queued :: rat

datatype event =
    Emit_error error_arg
  | Emit_stats snapshot
  | Call_next nat
  | Client_bulk "jsval list"

subsection \<open>The stream object\<close>

text \<open>
  \<open>this.options\<close> and \<open>this.stats\<close> are flattened into the record (\<open>opt_buffer\<close>,
  \<open>opt_timeout\<close>, \<open>opt_throttle\<close>; \<open>written\<close> ... \<open>retries\<close>). Counters are JavaScript
  numbers; \<open>writeBuffer.length / 2\<close> is a true division, so they are rationals.
  The batch size \<open>options.buffer\<close> is a count of records, an integer.
  \<open>timeout\<close> says whether the inactivity timer is armed. \<open>resumeFunction\<close> is \<open>None\<close>
  for the initial empty function and \<open>Some n\<close> for the continuation \<open>next\<close> of the
  write numbered \<open>n\<close>. \<open>inflight\<close> holds, for each call of \<open>client.bulk\<close> whose
  callback has not run yet, the \<open>writeBuffer\<close> that callback has captured.
\<close>

record options =
  o_buffer :: int
  o_timeout :: int
  o_throttle :: rat

record state =
  buffer :: "jsval list"
  flooding :: bool
  opt_buffer :: int
  opt_timeout :: int
  opt_throttle :: rat
  written :: rat
  inserted :: rat
  ok :: rat
  error :: rat
  active_requests :: rat
  retries :: rat
  timeout :: bool
  resumeFunction :: "nat option"
  writeBufferTotal :: rat
  emitted :: "event list"
  inflight :: "jsval list list"

text \<open>The constructor; \<open>options || { buffer: 1000, timeout: 1000, throttle: 20 }\<close>.\<close>

definition default_options :: options where
  "default_options = \<lparr> o_buffer = 1000, o_timeout = 1000, o_throttle = 20 \<rparr>"

definition BufferedBulkStream :: "options option \<Rightarrow> state" where
  "BufferedBulkStream opts =
     (let o' = (case opts of None \<Rightarrow> default_options | Some x \<Rightarrow> x) in
      \<lparr> buffer = [], flooding = False,
        opt_buffer = o_buffer o', opt_timeout = o_timeout o', opt_throttle = o_throttle o',
        written = 0, inserted = 0, ok = 0, error = 0, active_requests = 0, retries = 0,
        timeout = False, resumeFunction = None, writeBufferTotal = 0,
        emitted = [], inflight = [] \<rparr>)"

definition emit :: "event \<Rightarrow> state \<Rightarrow> state" where
  "emit e s = s\<lparr> emitted := emitted s @ [e] \<rparr>"

subsection \<open>batch: the adaptive throttle step\<close>

text \<open>
  \<open>rnd\<close> is the outcome of the test \<open>Math.random() > 0.9\<close> of this invocation.
\<close>

definition batch :: "bool \<Rightarrow> bool \<Rightarrow> state \<Rightarrow> state" where
  "batch hasFailures rnd s =
     (if hasFailures then
        (let t = opt_throttle s - 2 in
         s\<lparr> opt_throttle := (if t < 20 then 20 else t) \<rparr>)
      else if rnd then s\<lparr> opt_throttle := opt_throttle s + 1 \<rparr>
      else s)"

subsection \<open>emitStats\<close>

definition stats_snapshot :: "state \<Rightarrow> snapshot" where
  "stats_snapshot s =
     \<lparr> snap_written = written s - retries s,
       snap_indexed = inserted s,
       snap_errored = error s,
       snap_retries = retries s,
       snap_active_requests = active_requests s,
       snap_queued = written s - inserted s - error s - retries s \<rparr>"

definition emitStats :: "state \<Rightarrow> state" where
  "emitStats s = emit (Emit_stats (stats_snapshot s)) s"

subsection \<open>parseChunk\<close>

text \<open>
  \<open>parse\<close> stands for \<open>JSON.parse\<close>: \<open>None\<close> when it throws. The result is the
  accepted record (\<open>None\<close> for the source's \<open>return;\<close>) and the stream with the error
  event emitted, or the TypeError of reading \<open>_index\<close> from \<open>null\<close>.
\<close>

definition parseChunk ::
  "(string \<Rightarrow> jsval option) \<Rightarrow> jsval \<Rightarrow> state \<Rightarrow> js_error + (jsval option \<times> state)" where
  "parseChunk parse chunk0 s =
     (case (case chunk0 of JStr t \<Rightarrow> parse t | _ \<Rightarrow> Some chunk0) of
        None \<Rightarrow> Inr (None, emit (Emit_error (Msg ''failed to parse JSON chunk'')) s)
      | Some chunk \<Rightarrow>
          if typeof chunk = T_object then
            (if chunk = JNull then Inl TypeError
             else if \<not> truthy (get_prop chunk ''_index'') then
               Inr (None, emit (Emit_error (Msg ''invalid index specified'')) s)
             else if \<not> truthy (get_prop chunk ''_type'') then
               Inr (None, emit (Emit_error (Msg ''invalid type specified'')) s)
             else if \<not> truthy (get_prop chunk ''_id'') then
               Inr (None, emit (Emit_error (Msg ''invalid id specified'')) s)
             else Inr (Some chunk, s))
          else Inr (None, emit (Emit_error (Msg ''invalid bulk API message'')) s))"

subsection \<open>flush\<close>

text \<open>
  \<open>this.buffer.splice( 0, n )\<close> removes and returns the first \<open>n\<close> elements, all of
  them when there are fewer, none when \<open>n\<close> is negative. The call of \<open>client.bulk\<close>
  returns at once; its callback is \<open>bulk_callback\<close> below, run later with the
  \<open>writeBuffer\<close> recorded in \<open>inflight\<close>.
\<close>

definition flush :: "bool \<Rightarrow> state \<Rightarrow> state" where
  "flush force s =
     (if length (buffer s) < 2 then s
      else if \<not> force \<and> rat_of_nat (length (buffer s)) / 2 < rat_of_int (opt_buffer s) then s
      else
        (let n = nat (opt_buffer s * 2);
             writeBuffer = take n (buffer s);
             s1 = s\<lparr> buffer := drop n (buffer s) \<rparr>;
             s2 = s1\<lparr> writeBufferTotal := rat_of_nat (length writeBuffer) / 2 \<rparr>;
             s3 = s2\<lparr> written := written s2 + writeBufferTotal s2 \<rparr>;
             s4 = s3\<lparr> active_requests := active_requests s3 + 1 \<rparr>;
             s5 = (if active_requests s4 \<ge> opt_throttle s4 then s4\<lparr> flooding := True \<rparr> else s4);
             s6 = emit (Client_bulk writeBuffer) (s5\<lparr> inflight := inflight s5 @ [writeBuffer] \<rparr>)
         in emitStats s6))"

subsection \<open>validateBulkResponse\<close>

text \<open>
  The \<open>reduce\<close> builds an object from status code to the positions that returned it;
  \<open>add_code\<close> is one step of it. The object is kept as the list of its properties in
  creation order.
\<close>

fun add_code :: "(int \<times> nat list) list \<Rightarrow> int \<Rightarrow> nat \<Rightarrow> (int \<times> nat list) list" where
  "add_code [] k i = [(k, [i])]"
| "add_code ((k', js) # cs) k i =
     (if k' = k then (k', js @ [i]) # cs else (k', js) # add_code cs k i)"

definition responseCodes :: "item list \<Rightarrow> (int \<times> nat list) list" where
  "responseCodes items =
     foldl (\<lambda>codes (i, it). add_code codes (item_status it) i) [] (enumerate 0 items)"

text \<open>
  \<open>for( var code in responseCodes )\<close> visits the keys that are array indices
  (the integers from 0 to \<open>2^32 - 2\<close>) in ascending order first, then the other keys
  in creation order.
\<close>

definition is_array_index :: "int \<Rightarrow> bool" where
  "is_array_index k = (0 \<le> k \<and> k < 4294967295)"

definition for_in_keys :: "(int \<times> nat list) list \<Rightarrow> int list" where
  "for_in_keys codes =
     sort (filter is_array_index (map fst codes)) @
     filter (\<lambda>k. \<not> is_array_index k) (map fst codes)"

text \<open>\<open>writeBuffer.slice( a, a + 1 )[0]\<close>: the element, \<open>undefined\<close> past the end.\<close>

definition slot :: "jsval list \<Rightarrow> nat \<Rightarrow> jsval" where
  "slot writeBuffer a = (if a < length writeBuffer then writeBuffer ! a else JUndefined)"

definition codes_get :: "(int \<times> nat list) list \<Rightarrow> int \<Rightarrow> nat list" where
  "codes_get codes code = (case map_of codes code of None \<Rightarrow> [] | Some js \<Rightarrow> js)"

text \<open>The body of the \<open>forEach\<close> of the 503 branch.\<close>

definition retry_item :: "jsval list \<Rightarrow> state \<Rightarrow> nat \<Rightarrow> state" where
  "retry_item writeBuffer s i =
     (let startIndex = i * 2;
          s1 = s\<lparr> buffer := buffer s @ [slot writeBuffer (startIndex + 0),
                                         slot writeBuffer (startIndex + 1)] \<rparr>
      in s1\<lparr> retries := retries s1 + 1 \<rparr>)"

text \<open>The body of the \<open>for ... in\<close> loop, for one key.\<close>

definition handle_code ::
  "jsval list \<Rightarrow> item list \<Rightarrow> (int \<times> nat list) list \<Rightarrow> state \<Rightarrow> int \<Rightarrow> state" where
  "handle_code writeBuffer items codes s code =
     (if code = 200 then
        s\<lparr> inserted := inserted s + rat_of_nat (length (codes_get codes 200)) \<rparr>
      else if code = 201 then
        s\<lparr> inserted := inserted s + rat_of_nat (length (codes_get codes 201)) \<rparr>
      else if code = 503 then
        foldl (retry_item writeBuffer) s (codes_get codes 503)
      else if code = 400 then
        foldl (\<lambda>s' i. emit (Emit_error (IndexError
                 (item_error (items ! i))
                 (slot writeBuffer ((i * 2) + 1))
                 (RespItem (items ! i)))) s')
          (s\<lparr> error := error s + rat_of_nat (length (codes_get codes 400)) \<rparr>)
          (codes_get codes 400)
      else
        foldl (\<lambda>s' i. emit (Emit_error (IndexError
                 (JStr ''unknown response code'')
                 (slot writeBuffer ((i * 2) + 1))
                 (RespItem (items ! i)))) s')
          (s\<lparr> error := error s + rat_of_nat (length (codes_get codes code)) \<rparr>)
          (codes_get codes code))"

definition validateBulkResponse :: "jsval list \<Rightarrow> item list \<Rightarrow> bool \<Rightarrow> state \<Rightarrow> state" where
  "validateBulkResponse writeBuffer items rnd s =
     (let codes = responseCodes items;
          hasFailures = list_ex (\<lambda>it. item_status it = 503) items;
          s1 = batch hasFailures rnd s
      in foldl (handle_code writeBuffer items codes) s1 (for_in_keys codes))"

subsection \<open>The callback of client.bulk\<close>

text \<open>
  The function passed to \<open>client.bulk\<close> in \<open>flush\<close>, closed over \<open>writeBuffer\<close>.
  \<open>writeBufferTotal\<close> is read from the global variable when the callback runs.
  Calling \<open>resumeFunction\<close> calls the continuation stored by the last write, or does
  nothing for the initial empty function.
\<close>

definition call_resume :: "state \<Rightarrow> state" where
  "call_resume s = (case resumeFunction s of None \<Rightarrow> s | Some n \<Rightarrow> emit (Call_next n) s)"

definition bulk_callback ::
  "jsval list \<Rightarrow> jsval \<Rightarrow> response option \<Rightarrow> bool \<Rightarrow> state \<Rightarrow> state" where
  "bulk_callback writeBuffer err resp rnd s =
     (let s1 = s\<lparr> active_requests := active_requests s - 1 \<rparr> in
      if truthy err then
        emit (Emit_error (IndexError err JNull (RespWhole resp)))
          (s1\<lparr> error := error s1 + writeBufferTotal s1 \<rparr>)
      else
        (case resp of
           None \<Rightarrow>
             emit (Emit_error (IndexError (JStr ''invalid resp from es bulk index operation'')
                                 JNull (RespWhole resp)))
               (s1\<lparr> error := error s1 + writeBufferTotal s1 \<rparr>)
         | Some (Response None) \<Rightarrow>
             emit (Emit_error (IndexError (JStr ''invalid resp from es bulk index operation'')
                                 JNull (RespWhole resp)))
               (s1\<lparr> error := error s1 + writeBufferTotal s1 \<rparr>)
         | Some (Response (Some items)) \<Rightarrow>
             (let s2 = validateBulkResponse writeBuffer items rnd s1;
                  s3 = (if active_requests s2 < opt_throttle s2 \<and> flooding s2
                        then call_resume (s2\<lparr> flooding := False \<rparr>) else s2)
              in emitStats s3)))"

subsection \<open>_write\<close>

text \<open>
  \<open>_write( chunk, enc, next )\<close>, here \<open>write_chunk\<close>; \<open>next\<close> is the number of the
  continuation. The
  descriptor pushed before the document is \<open>{ index: { _index, _type, _id } }\<close>.
\<close>

definition descriptor :: "jsval \<Rightarrow> jsval" where
  "descriptor record =
     JObj [(''index'', JObj [(''_index'', get_prop record ''_index''),
                             (''_type'', get_prop record ''_type''),
                             (''_id'', get_prop record ''_id'')])]"

definition write_chunk ::
  "(string \<Rightarrow> jsval option) \<Rightarrow> jsval \<Rightarrow> nat \<Rightarrow> state \<Rightarrow> js_error + state" where
  "write_chunk parse chunk next s =
     (case parseChunk parse chunk s of
        Inl e \<Rightarrow> Inl e
      | Inr (record, s1) \<Rightarrow>
          (let s2 = (case record of
                       None \<Rightarrow> s1\<lparr> error := error s1 + 1 \<rparr>
                     | Some r \<Rightarrow> s1\<lparr> ok := ok s1 + 1 \<rparr>);
               s3 = (case record of
                       None \<Rightarrow> s2
                     | Some r \<Rightarrow>
                         flush False
                           (s2\<lparr> buffer := buffer s2 @ [descriptor r, get_prop r ''data''] \<rparr>));
               s4 = s3\<lparr> timeout := True \<rparr>;
               s5 = s4\<lparr> resumeFunction := Some next \<rparr>
           in Inr (if \<not> flooding s5 then emit (Call_next next) s5 else s5)))"

subsection \<open>The stream driven by its environment\<close>

text \<open>
  What can happen to a stream: a write arrives; the inactivity timer fires (when armed)
  and calls \<open>flush( true )\<close>; the \<open>end\<close> event calls \<open>flush( true )\<close>; the backend
  completes the pending call at position \<open>k\<close> of \<open>inflight\<close> with \<open>err\<close> and \<open>resp\<close>.
  A write that raises leaves the object as it was: \<open>parseChunk\<close> raises before
  anything is assigned.
\<close>

datatype input =
    Write jsval nat
  | Timer
  | End
  | Complete nat jsval "response option" bool

definition step :: "(string \<Rightarrow> jsval option) \<Rightarrow> state \<Rightarrow> input \<Rightarrow> state" where
  "step parse s i =
     (case i of
        Write chunk next \<Rightarrow> (case write_chunk parse chunk next s of Inl e \<Rightarrow> s | Inr s' \<Rightarrow> s')
      | Timer \<Rightarrow> (if timeout s then flush True (s\<lparr> timeout := False \<rparr>) else s)
      | End \<Rightarrow> flush True s
      | Complete k err resp rnd \<Rightarrow>
          (if k < length (inflight s)
           then bulk_callback (inflight s ! k) err resp rnd
                  (s\<lparr> inflight := take k (inflight s) @ drop (Suc k) (inflight s) \<rparr>)
           else s))"

definition run :: "(string \<Rightarrow> jsval option) \<Rightarrow> input list \<Rightarrow> state \<Rightarrow> state" where
  "run parse is s = foldl (step parse) s is"

subsection \<open>Auxiliary notions for the statements\<close>

text \<open>
  The elements pushed back by the 503 branch for the positions \<open>js\<close>, in order.
\<close>

definition retry_pairs :: "jsval list \<Rightarrow> nat list \<Rightarrow> jsval list" where
  "retry_pairs wb js = concat (map (\<lambda>i. [slot wb (i * 2), slot wb (i * 2 + 1)]) js)"

text \<open>Concrete records, batches and response items used to instantiate the theorems.\<close>

definition ex_item :: "int \<Rightarrow> item" where
  "ex_item c = \<lparr> item_status = c, item_error = JStr ''rejected'' \<rparr>"

definition ex_record :: "int \<Rightarrow> jsval" where
  "ex_record n = JObj [(''_index'', JStr ''idx''), (''_type'', JStr ''doc''),
                       (''_id'', JNum n), (''data'', JObj [(''n'', JNum n)])]"

definition ex_batch :: "int list \<Rightarrow> jsval list" where
  "ex_batch ns = concat (map (\<lambda>n. [descriptor (ex_record n), get_prop (ex_record n) ''data'']) ns)"


definition ex_options :: "int \<Rightarrow> rat \<Rightarrow> options" where
  "ex_options b t = \<lparr> o_buffer = b, o_timeout = 1000, o_throttle = t \<rparr>"

text \<open>A \<open>JSON.parse\<close> for runs whose chunks are all objects: it is never called.\<close>

definition no_json :: "string \<Rightarrow> jsval option" where
  "no_json t = None"

text \<open>
  A sequence of invocations of \<open>batch\<close>, each with its failure flag and the outcome of
  its random test.
\<close>

definition batches :: "(bool \<times> bool) list \<Rightarrow> state \<Rightarrow> state" where
  "batches calls s = foldl (\<lambda>s' (hasFailures, rnd). batch hasFailures rnd s') s calls"

text \<open>The payloads of the stats events of a trace, in order.\<close>

definition stats_events :: "event list \<Rightarrow> snapshot list" where
  "stats_events es = concat (map (\<lambda>e. case e of Emit_stats x \<Rightarrow> [x] | _ \<Rightarrow> []) es)"

text \<open>The stream after one record was written with a batch size of 2.\<close>

definition ex_buffered :: state where
  "ex_buffered = run no_json [Write (ex_record 1) 1] (BufferedBulkStream (Some (ex_options 2 20)))"

text \<open>A record without \<open>_type\<close>.\<close>

definition ex_no_type :: jsval where
  "ex_no_type = JObj [(''_index'', JStr ''idx''), (''_id'', JNum 1), (''data'', JNull)]"

text \<open>The batches handed to \<open>client.bulk\<close> in a trace, in order.\<close>

definition dispatched :: "event list \<Rightarrow> jsval list list" where
  "dispatched es = concat (map (\<lambda>e. case e of Client_bulk wb \<Rightarrow> [wb] | _ \<Rightarrow> []) es)"

text \<open>The buffer and every batch sent so far consist of whole pairs.\<close>

definition pairs_only :: "state \<Rightarrow> bool" where
  "pairs_only s =
     (even (length (buffer s)) \<and> list_all (\<lambda>wb. even (length wb)) (dispatched (emitted s)))"

text \<open>The continuations called and the errors emitted in a trace, in order.\<close>

definition next_calls :: "event list \<Rightarrow> nat list" where
  "next_calls es = concat (map (\<lambda>e. case e of Call_next n \<Rightarrow> [n] | _ \<Rightarrow> []) es)"

definition error_events :: "event list \<Rightarrow> error_arg list" where
  "error_events es = concat (map (\<lambda>e. case e of Emit_error x \<Rightarrow> [x] | _ \<Rightarrow> []) es)"

text \<open>
  With a batch size of 2: two records are written and sent, a third one is written and
  sent by the inactivity timer; both calls are pending.
\<close>

definition ex_two_inflight :: state where
  "ex_two_inflight =
     run no_json [Write (ex_record 1) 1, Write (ex_record 2) 2, Write (ex_record 3) 3, Timer]
       (BufferedBulkStream (Some (ex_options 2 20)))"

section \<open>Properties\<close>

subsection \<open>Field lemmas and the map of response codes\<close>

lemma emit_fields [simp]:
  "buffer (emit e s) = buffer s" "flooding (emit e s) = flooding s"
  "opt_buffer (emit e s) = opt_buffer s" "opt_throttle (emit e s) = opt_throttle s"
  "written (emit e s) = written s" "inserted (emit e s) = inserted s"
  "ok (emit e s) = ok s" "error (emit e s) = error s"
  "active_requests (emit e s) = active_requests s" "retries (emit e s) = retries s"
  "timeout (emit e s) = timeout s" "resumeFunction (emit e s) = resumeFunction s"
  "writeBufferTotal (emit e s) = writeBufferTotal s" "inflight (emit e s) = inflight s"
  "emitted (emit e s) = emitted s @ [e]"
  by (simp_all add: emit_def)

lemma responseCodes_snoc:
  "responseCodes (items @ [x]) = add_code (responseCodes items) (item_status x) (length items)"
  by (simp add: responseCodes_def enumerate_append_eq)

lemma codes_get_add_code:
  "codes_get (add_code cs k i) k' = (if k' = k then codes_get cs k @ [i] else codes_get cs k')"
  by (induction cs) (auto simp: codes_get_def)

lemma codes_get_responseCodes:
  "codes_get (responseCodes items) k =
     filter (\<lambda>i. item_status (items ! i) = k) [0..<length items]"
proof (induction items arbitrary: k rule: rev_induct)
  case Nil
  show ?case by (simp add: responseCodes_def codes_get_def)
next
  case (snoc x xs)
  have "filter (\<lambda>i. item_status ((xs @ [x]) ! i) = k) [0..<length xs] =
        filter (\<lambda>i. item_status (xs ! i) = k) [0..<length xs]"
    by (rule filter_cong) (auto simp: nth_append)
  with snoc show ?case
    by (simp add: responseCodes_snoc codes_get_add_code)
qed

lemma keys_add_code:
  "map fst (add_code cs k i) = (if k \<in> fst ` set cs then map fst cs else map fst cs @ [k])"
  by (induction cs) (force+)

lemma responseCodes_Nil: "responseCodes [] = []"
  by (simp add: responseCodes_def)

lemma distinct_keys_responseCodes: "distinct (map fst (responseCodes items))"
  by (induction items rule: rev_induct)
     (auto simp: responseCodes_snoc keys_add_code responseCodes_Nil)

lemma set_keys_responseCodes: "set (map fst (responseCodes items)) = item_status ` set items"
  by (induction items rule: rev_induct)
     (auto simp: responseCodes_snoc keys_add_code responseCodes_Nil)

lemma distinct_for_in_keys: "distinct (map fst codes) \<Longrightarrow> distinct (for_in_keys codes)"
  by (auto simp: for_in_keys_def)

lemma set_for_in_keys: "set (for_in_keys codes) = fst ` set codes"
  by (auto simp: for_in_keys_def)


lemma foldl_retry_item:
  "foldl (retry_item wb) s js =
     s\<lparr> buffer := buffer s @ retry_pairs wb js,
        retries := retries s + rat_of_nat (length js) \<rparr>"
  by (induction js arbitrary: s) (simp_all add: retry_item_def retry_pairs_def Let_def)

lemma foldl_emit:
  "foldl (\<lambda>s' i. emit (f i) s') s js = s\<lparr> emitted := emitted s @ map f js \<rparr>"
  by (induction js arbitrary: s) (simp_all add: emit_def)

lemma handle_code_buffer:
  "buffer (handle_code wb items codes s code) =
     buffer s @ (if code = 503 then retry_pairs wb (codes_get codes 503) else [])"
  by (simp add: handle_code_def foldl_retry_item foldl_emit)

lemma handle_code_retries:
  "retries (handle_code wb items codes s code) =
     retries s + (if code = 503 then rat_of_nat (length (codes_get codes 503)) else 0)"
  by (simp add: handle_code_def foldl_retry_item foldl_emit)

lemma handle_code_throttle:
  "opt_throttle (handle_code wb items codes s code) = opt_throttle s"
  by (simp add: handle_code_def foldl_retry_item foldl_emit)

lemma foldl_handle_code_buffer:
  "distinct ks \<Longrightarrow>
   buffer (foldl (handle_code wb items codes) s ks) =
     buffer s @ (if 503 \<in> set ks then retry_pairs wb (codes_get codes 503) else [])"
  by (induction ks arbitrary: s) (auto simp: handle_code_buffer)

lemma foldl_handle_code_retries:
  "distinct ks \<Longrightarrow>
   retries (foldl (handle_code wb items codes) s ks) =
     retries s + (if 503 \<in> set ks then rat_of_nat (length (codes_get codes 503)) else 0)"
  by (induction ks arbitrary: s) (auto simp: handle_code_retries)

lemma foldl_handle_code_throttle:
  "opt_throttle (foldl (handle_code wb items codes) s ks) = opt_throttle s"
  by (induction ks arbitrary: s) (auto simp: handle_code_throttle)

lemma batch_fields [simp]:
  "buffer (batch h r s) = buffer s" "retries (batch h r s) = retries s"
  "inserted (batch h r s) = inserted s" "error (batch h r s) = error s"
  "written (batch h r s) = written s" "emitted (batch h r s) = emitted s"
  "active_requests (batch h r s) = active_requests s" "flooding (batch h r s) = flooding s"
  "inflight (batch h r s) = inflight s" "opt_buffer (batch h r s) = opt_buffer s"
  by (simp_all add: batch_def Let_def)

lemma codes_get_absent:
  "k \<notin> item_status ` set items \<Longrightarrow> codes_get (responseCodes items) k = []"
  by (auto simp: codes_get_responseCodes filter_empty_conv)

lemma validate_buffer:
  "buffer (validateBulkResponse wb items rnd s) =
     buffer s @ retry_pairs wb (filter (\<lambda>i. item_status (items ! i) = 503) [0..<length items])"
proof -
  let ?codes = "responseCodes items"
  have d: "distinct (for_in_keys ?codes)"
    by (rule distinct_for_in_keys) (rule distinct_keys_responseCodes)
  have k: "set (for_in_keys ?codes) = item_status ` set items"
    using set_keys_responseCodes [of items] by (simp add: set_for_in_keys)
  show ?thesis
  proof (cases "503 \<in> item_status ` set items")
    case True
    then show ?thesis
      by (simp add: validateBulkResponse_def Let_def foldl_handle_code_buffer [OF d] k
            codes_get_responseCodes)
  next
    case False
    then have "codes_get ?codes 503 = []" by (rule codes_get_absent)
    then have "filter (\<lambda>i. item_status (items ! i) = 503) [0..<length items] = []"
      by (simp add: codes_get_responseCodes)
    with False show ?thesis
      by (simp add: validateBulkResponse_def Let_def foldl_handle_code_buffer [OF d] k
            retry_pairs_def)
  qed
qed

lemma validate_retries:
  "retries (validateBulkResponse wb items rnd s) =
     retries s + rat_of_nat (length (filter (\<lambda>i. item_status (items ! i) = 503) [0..<length items]))"
proof -
  let ?codes = "responseCodes items"
  have d: "distinct (for_in_keys ?codes)"
    by (rule distinct_for_in_keys) (rule distinct_keys_responseCodes)
  have k: "set (for_in_keys ?codes) = item_status ` set items"
    using set_keys_responseCodes [of items] by (simp add: set_for_in_keys)
  show ?thesis
  proof (cases "503 \<in> item_status ` set items")
    case True
    then show ?thesis
      by (simp add: validateBulkResponse_def Let_def foldl_handle_code_retries [OF d] k
            codes_get_responseCodes)
  next
    case False
    then have "codes_get ?codes 503 = []" by (rule codes_get_absent)
    then have "filter (\<lambda>i. item_status (items ! i) = 503) [0..<length items] = []"
      by (simp add: codes_get_responseCodes)
    with False show ?thesis
      by (simp add: validateBulkResponse_def Let_def foldl_handle_code_retries [OF d] k)
  qed
qed

lemma validate_throttle:
  "opt_throttle (validateBulkResponse wb items rnd s) =
     opt_throttle (batch (list_ex (\<lambda>it. item_status it = 503) items) rnd s)"
  by (simp add: validateBulkResponse_def Let_def foldl_handle_code_throttle)

lemma list_ex_503:
  "list_ex (\<lambda>it. item_status it = 503) items =
     (\<exists>i < length items. item_status (items ! i) = 503)"
  unfolding list_ex_iff by (metis in_set_conv_nth)


subsection \<open>Retry of 503 items\<close>

text \<open>
  C1. Classifying any response: the buffer afterwards is the buffer before followed by, for
  each position \<open>i\<close> whose item has status 503 and in ascending order of \<open>i\<close>, the two
  elements at slots \<open>2i\<close> and \<open>2i+1\<close> of the batch that was sent; \<open>retries\<close> has grown
  by the number of these positions; and when there is such a position, the throttle is
  the one that \<open>batch\<close> computes with its failure flag set.
\<close>

theorem C1_retry_503:
  "buffer (validateBulkResponse writeBuffer items rnd s) =
     buffer s @ concat (map (\<lambda>i. [slot writeBuffer (i * 2), slot writeBuffer (i * 2 + 1)])
                   (filter (\<lambda>i. item_status (items ! i) = 503) [0..<length items]))
   \<and> retries (validateBulkResponse writeBuffer items rnd s) =
       retries s + rat_of_nat (length (filter (\<lambda>i. item_status (items ! i) = 503) [0..<length items]))
   \<and> ((\<exists>i < length items. item_status (items ! i) = 503) \<longrightarrow>
        opt_throttle (validateBulkResponse writeBuffer items rnd s) =
          opt_throttle (batch True rnd s))"
proof (intro conjI impI)
  show "buffer (validateBulkResponse writeBuffer items rnd s) =
     buffer s @ concat (map (\<lambda>i. [slot writeBuffer (i * 2), slot writeBuffer (i * 2 + 1)])
                   (filter (\<lambda>i. item_status (items ! i) = 503) [0..<length items]))"
    using validate_buffer [of writeBuffer items rnd s] by (simp only: retry_pairs_def)
  show "retries (validateBulkResponse writeBuffer items rnd s) =
       retries s + rat_of_nat (length (filter (\<lambda>i. item_status (items ! i) = 503) [0..<length items]))"
    by (rule validate_retries)
next
  assume "\<exists>i < length items. item_status (items ! i) = 503"
  then have "list_ex (\<lambda>it. item_status it = 503) items"
    by (simp only: list_ex_503)
  then show "opt_throttle (validateBulkResponse writeBuffer items rnd s) =
          opt_throttle (batch True rnd s)"
    by (simp only: validate_throttle)
qed


theorem C1_retry_503_witness:
  "(\<exists>i < length [ex_item 201, ex_item 503]. item_status ([ex_item 201, ex_item 503] ! i) = 503)
   \<and> buffer (validateBulkResponse (ex_batch [1, 2]) [ex_item 201, ex_item 503] False
               (BufferedBulkStream None)) =
       [descriptor (ex_record 2), JObj [(''n'', JNum 2)]]
   \<and> retries (validateBulkResponse (ex_batch [1, 2]) [ex_item 201, ex_item 503] False
               (BufferedBulkStream None)) = 1
   \<and> opt_throttle (validateBulkResponse (ex_batch [1, 2]) [ex_item 201, ex_item 503] False
               (BufferedBulkStream None)) = 20"
proof -
  have h: "\<exists>i < length [ex_item 201, ex_item 503]. item_status ([ex_item 201, ex_item 503] ! i) = 503"
    by (rule exI [of _ 1]) (simp add: ex_item_def)
  have f: "filter (\<lambda>i. item_status ([ex_item 201, ex_item 503] ! i) = 503)
             [0..<length [ex_item 201, ex_item 503]] = [1]"
    by (simp add: ex_item_def upt_rec)
  note t = C1_retry_503 [of "ex_batch [1, 2]" "[ex_item 201, ex_item 503]" False
             "BufferedBulkStream None", unfolded f]
  have b: "buffer (validateBulkResponse (ex_batch [1, 2]) [ex_item 201, ex_item 503] False
               (BufferedBulkStream None)) = [descriptor (ex_record 2), JObj [(''n'', JNum 2)]]"
    using t [THEN conjunct1]
    by (simp add: slot_def ex_batch_def ex_record_def BufferedBulkStream_def default_options_def)
  have r: "retries (validateBulkResponse (ex_batch [1, 2]) [ex_item 201, ex_item 503] False
               (BufferedBulkStream None)) = 1"
    using t [THEN conjunct2, THEN conjunct1]
    by (simp add: BufferedBulkStream_def default_options_def)
  have th: "opt_throttle (validateBulkResponse (ex_batch [1, 2]) [ex_item 201, ex_item 503] False
               (BufferedBulkStream None)) = 20"
    using t [THEN conjunct2, THEN conjunct2, THEN mp, OF h]
    by (simp add: batch_def BufferedBulkStream_def default_options_def)
  from h b r th show ?thesis by (intro conjI)
qed


text \<open>
  C2. A batch of five pairs answered with the statuses 201, 503, 400, 201, 503:
  \<open>inserted\<close> grows by 2, \<open>error\<close> by 1, exactly one error event is emitted and it
  carries the document of position 2 (slot 5), \<open>retries\<close> grows by 2, and the pairs of
  positions 1 and 4 are appended to the buffer in that order.
\<close>

theorem C2_mixed_batch:
  assumes "length writeBuffer = 10"
    and "map item_status items = [201, 503, 400, 201, 503]"
  shows "inserted (validateBulkResponse writeBuffer items rnd s) = inserted s + 2
    \<and> error (validateBulkResponse writeBuffer items rnd s) = error s + 1
    \<and> emitted (validateBulkResponse writeBuffer items rnd s) =
        emitted s @ [Emit_error (IndexError (item_error (items ! 2)) (writeBuffer ! 5)
                                   (RespItem (items ! 2)))]
    \<and> retries (validateBulkResponse writeBuffer items rnd s) = retries s + 2
    \<and> buffer (validateBulkResponse writeBuffer items rnd s) =
        buffer s @ [writeBuffer ! 2, writeBuffer ! 3, writeBuffer ! 8, writeBuffer ! 9]"
proof -
  from assms(2) obtain a b c d e where items: "items = [a, b, c, d, e]"
    and st: "item_status a = 201" "item_status b = 503" "item_status c = 400"
      "item_status d = 201" "item_status e = 503"
    by (auto simp: map_eq_Cons_conv)
  have codes: "responseCodes [a, b, c, d, e] = [(201, [0, 3]), (503, [1, 4]), (400, [2])]"
    by (simp add: responseCodes_def st)
  have keys: "\<And>x y z. for_in_keys [(201, x), (503, y), (400, z)] = [201, 400, 503]"
    by (simp add: for_in_keys_def is_array_index_def)
  have v: "validateBulkResponse writeBuffer items rnd s =
      foldl (handle_code writeBuffer [a, b, c, d, e] [(201, [0, 3]), (503, [1, 4]), (400, [2])])
        (batch True rnd s) [201, 400, 503]"
    by (simp add: validateBulkResponse_def Let_def items codes keys st)
  show ?thesis
    unfolding v using assms(1)
    by (simp add: handle_code_def codes_get_def retry_item_def emit_def batch_def Let_def
          slot_def items)
qed

theorem C2_mixed_batch_witness:
  "length (ex_batch [1, 2, 3, 4, 5]) = 10
   \<and> map item_status (map ex_item [201, 503, 400, 201, 503]) = [201, 503, 400, 201, 503]
   \<and> inserted (validateBulkResponse (ex_batch [1, 2, 3, 4, 5])
        (map ex_item [201, 503, 400, 201, 503]) False (BufferedBulkStream None)) = 2
   \<and> error (validateBulkResponse (ex_batch [1, 2, 3, 4, 5])
        (map ex_item [201, 503, 400, 201, 503]) False (BufferedBulkStream None)) = 1
   \<and> emitted (validateBulkResponse (ex_batch [1, 2, 3, 4, 5])
        (map ex_item [201, 503, 400, 201, 503]) False (BufferedBulkStream None)) =
        [Emit_error (IndexError (JStr ''rejected'') (JObj [(''n'', JNum 3)]) (RespItem (ex_item 400)))]
   \<and> retries (validateBulkResponse (ex_batch [1, 2, 3, 4, 5])
        (map ex_item [201, 503, 400, 201, 503]) False (BufferedBulkStream None)) = 2
   \<and> buffer (validateBulkResponse (ex_batch [1, 2, 3, 4, 5])
        (map ex_item [201, 503, 400, 201, 503]) False (BufferedBulkStream None)) = ex_batch [2, 5]"
proof -
  have l: "length (ex_batch [1, 2, 3, 4, 5]) = 10"
    by (simp add: ex_batch_def)
  have m: "map item_status (map ex_item [201, 503, 400, 201, 503]) = [201, 503, 400, 201, 503]"
    by (simp add: ex_item_def)
  have i: "BufferedBulkStream None = \<lparr> buffer = [], flooding = False,
        opt_buffer = 1000, opt_timeout = 1000, opt_throttle = 20,
        written = 0, inserted = 0, ok = 0, error = 0, active_requests = 0, retries = 0,
        timeout = False, resumeFunction = None, writeBufferTotal = 0,
        emitted = [], inflight = [] \<rparr>"
    by (simp add: BufferedBulkStream_def default_options_def)
  show ?thesis
    using l m C2_mixed_batch [OF l m, of False "BufferedBulkStream None"]
    by (simp add: i ex_batch_def ex_record_def ex_item_def)
qed

subsection \<open>The throttle floor\<close>

lemma batch_floor: "20 \<le> opt_throttle s \<Longrightarrow> 20 \<le> opt_throttle (batch h r s)"
  by (simp add: batch_def Let_def)

lemma batches_floor: "20 \<le> opt_throttle s \<Longrightarrow> 20 \<le> opt_throttle (batches calls s)"
  unfolding batches_def
  by (induction calls arbitrary: s) (auto simp: batch_floor)

text \<open>
  C6. If the throttle is at least 20, it is at least 20 after any sequence of
  invocations of \<open>batch\<close>; an invocation with failures sets it to the larger of 20 and
  the throttle minus 2; an invocation without failures never lowers it.
\<close>

theorem C6_throttle_floor:
  assumes "20 \<le> opt_throttle s"
  shows "20 \<le> opt_throttle (batches calls s)
    \<and> opt_throttle (batch True rnd s) = max 20 (opt_throttle s - 2)
    \<and> opt_throttle s \<le> opt_throttle (batch False rnd s)"
  using assms batches_floor [of s calls] by (simp add: batch_def Let_def max_def)

theorem C6_throttle_floor_witness:
  "20 \<le> opt_throttle (BufferedBulkStream None)
   \<and> opt_throttle (batches [(False, True), (True, False), (True, True)] (BufferedBulkStream None)) = 20
   \<and> opt_throttle (batch True False (BufferedBulkStream None)) = 20
   \<and> opt_throttle (batch False True (BufferedBulkStream None)) = 21"
proof -
  have h: "20 \<le> opt_throttle (BufferedBulkStream None)"
    by (simp add: BufferedBulkStream_def default_options_def)
  show ?thesis
    using h C6_throttle_floor [OF h, of "[(False, True), (True, False), (True, True)]" False]
    by (simp add: batches_def batch_def BufferedBulkStream_def default_options_def)
qed

subsection \<open>The stats event\<close>

text \<open>
  C9, as amended. \<open>emitStats\<close> emits one stats event whose \<open>written\<close> field is the
  \<open>written\<close> counter minus the \<open>retries\<close> counter; it equals the counter itself exactly
  when \<open>retries\<close> is 0.
\<close>

theorem C9_stats_written:
  "emitted (emitStats s) = emitted s @ [Emit_stats (stats_snapshot s)]
   \<and> snap_written (stats_snapshot s) = written s - retries s
   \<and> (snap_written (stats_snapshot s) = written s) = (retries s = 0)"
  by (simp add: emitStats_def stats_snapshot_def)

text \<open>
  Two records are written with a batch size of 2 and both come back with status 503:
  the counter \<open>written\<close> is 2, while the two stats events report 2 and then 0.
\<close>

theorem C9_counterexample:
  "written (run no_json
      [Write (ex_record 1) 1, Write (ex_record 2) 2,
       Complete 0 JNull (Some (Response (Some [ex_item 503, ex_item 503]))) False]
      (BufferedBulkStream (Some (ex_options 2 20)))) = 2
   \<and> map snap_written (stats_events (emitted (run no_json
      [Write (ex_record 1) 1, Write (ex_record 2) 2,
       Complete 0 JNull (Some (Response (Some [ex_item 503, ex_item 503]))) False]
      (BufferedBulkStream (Some (ex_options 2 20)))))) = [2, 0]"
  by code_simp

subsection \<open>flush\<close>

lemma flush_noop:
  "length (buffer s) < 2 \<or> rat_of_nat (length (buffer s)) / 2 < rat_of_int (opt_buffer s)
   \<Longrightarrow> flush False s = s"
  by (auto simp: flush_def)

lemma emitStats_fields [simp]:
  "buffer (emitStats s) = buffer s" "inflight (emitStats s) = inflight s"
  "opt_throttle (emitStats s) = opt_throttle s" "flooding (emitStats s) = flooding s"
  "written (emitStats s) = written s" "error (emitStats s) = error s"
  "inserted (emitStats s) = inserted s" "retries (emitStats s) = retries s"
  "active_requests (emitStats s) = active_requests s"
  "opt_buffer (emitStats s) = opt_buffer s"
  by (simp_all add: emitStats_def)

lemma flush_buffer:
  "buffer (flush force s) =
     (if length (buffer s) < 2 \<or>
         (\<not> force \<and> rat_of_nat (length (buffer s)) / 2 < rat_of_int (opt_buffer s))
      then buffer s else drop (nat (opt_buffer s * 2)) (buffer s))"
  by (simp add: flush_def Let_def)

lemma flush_written:
  "written (flush force s) =
     (if length (buffer s) < 2 \<or>
         (\<not> force \<and> rat_of_nat (length (buffer s)) / 2 < rat_of_int (opt_buffer s))
      then written s
      else written s + rat_of_nat (length (take (nat (opt_buffer s * 2)) (buffer s))) / 2)"
  by (simp add: flush_def Let_def)

text \<open>
  C3, as amended. \<open>flush\<close> without force leaves the stream as it is when the buffer
  holds fewer than 2 elements or fewer pairs than the batch size. A forced \<open>flush\<close> on
  at least one pair removes the first \<open>2 * batch size\<close> elements (all of them when
  there are fewer) and adds the number of removed pairs to \<open>written\<close>; it empties the
  buffer when the pair count is at most the batch size.
\<close>

theorem C3_flush:
  "(length (buffer s) < 2 \<or> rat_of_nat (length (buffer s)) / 2 < rat_of_int (opt_buffer s)
      \<longrightarrow> flush False s = s)
   \<and> (2 \<le> length (buffer s) \<longrightarrow>
        buffer (flush True s) = drop (2 * nat (opt_buffer s)) (buffer s)
        \<and> written (flush True s) =
            written s + rat_of_nat (min (length (buffer s)) (2 * nat (opt_buffer s))) / 2)
   \<and> (2 \<le> length (buffer s) \<and> int (length (buffer s)) \<le> 2 * opt_buffer s \<longrightarrow>
        buffer (flush True s) = [])"
proof (intro conjI impI)
  assume "length (buffer s) < 2 \<or> rat_of_nat (length (buffer s)) / 2 < rat_of_int (opt_buffer s)"
  then show "flush False s = s" by (rule flush_noop)
next
  have n: "nat (opt_buffer s * 2) = 2 * nat (opt_buffer s)" by (simp add: nat_mult_distrib)
  assume "2 \<le> length (buffer s)"
  then show "buffer (flush True s) = drop (2 * nat (opt_buffer s)) (buffer s)"
    by (simp add: flush_buffer n)
next
  have n: "nat (opt_buffer s * 2) = 2 * nat (opt_buffer s)" by (simp add: nat_mult_distrib)
  assume "2 \<le> length (buffer s)"
  then show "written (flush True s) =
            written s + rat_of_nat (min (length (buffer s)) (2 * nat (opt_buffer s))) / 2"
    by (simp add: flush_written n)
next
  have n: "nat (opt_buffer s * 2) = 2 * nat (opt_buffer s)" by (simp add: nat_mult_distrib)
  assume "2 \<le> length (buffer s) \<and> int (length (buffer s)) \<le> 2 * opt_buffer s"
  then show "buffer (flush True s) = []"
    by (simp add: flush_buffer n) linarith
qed

lemma ex_buffered_fields:
  "buffer ex_buffered = ex_batch [1]" "opt_buffer ex_buffered = 2" "written ex_buffered = 0"
  by (code_simp)+

theorem C3_flush_witness:
  "(length (buffer ex_buffered) < 2 \<or>
      rat_of_nat (length (buffer ex_buffered)) / 2 < rat_of_int (opt_buffer ex_buffered))
   \<and> flush False ex_buffered = ex_buffered
   \<and> 2 \<le> length (buffer ex_buffered)
   \<and> int (length (buffer ex_buffered)) \<le> 2 * opt_buffer ex_buffered
   \<and> buffer (flush True ex_buffered) = []
   \<and> written (flush True ex_buffered) = 1"
proof -
  have l: "length (buffer ex_buffered) = 2"
    by (simp add: ex_buffered_fields ex_batch_def)
  have h1: "length (buffer ex_buffered) < 2 \<or>
      rat_of_nat (length (buffer ex_buffered)) / 2 < rat_of_int (opt_buffer ex_buffered)"
    by (simp add: ex_buffered_fields ex_batch_def)
  have h2: "2 \<le> length (buffer ex_buffered)" by (simp add: l)
  have h3: "2 \<le> length (buffer ex_buffered) \<and> int (length (buffer ex_buffered)) \<le> 2 * opt_buffer ex_buffered"
    by (simp add: ex_buffered_fields ex_batch_def)
  note t = C3_flush [of ex_buffered]
  have a: "flush False ex_buffered = ex_buffered"
    using t [THEN conjunct1, THEN mp, OF h1] .
  have b: "written (flush True ex_buffered) = 1"
    using t [THEN conjunct2, THEN conjunct1, THEN mp, OF h2, THEN conjunct2]
    by (simp add: ex_buffered_fields ex_batch_def)
  have c: "buffer (flush True ex_buffered) = []"
    using t [THEN conjunct2, THEN conjunct2, THEN mp, OF h3] .
  from h1 a h2 h3 b c show ?thesis by simp
qed

text \<open>
  With a batch size of 2, three records are written and the first batch comes back with
  two 503 items: the buffer then holds three pairs, and a forced \<open>flush\<close> leaves the
  third one behind.
\<close>

theorem C3_counterexample:
  "length (buffer (run no_json
      [Write (ex_record 1) 1, Write (ex_record 2) 2, Write (ex_record 3) 3,
       Complete 0 JNull (Some (Response (Some [ex_item 503, ex_item 503]))) False]
      (BufferedBulkStream (Some (ex_options 2 20))))) = 6
   \<and> buffer (flush True (run no_json
      [Write (ex_record 1) 1, Write (ex_record 2) 2, Write (ex_record 3) 3,
       Complete 0 JNull (Some (Response (Some [ex_item 503, ex_item 503]))) False]
      (BufferedBulkStream (Some (ex_options 2 20))))) = ex_batch [2]"
  by code_simp

subsection \<open>Validation at intake\<close>

lemma parseChunk_record:
  assumes "chunk = JObj kvs \<or> (chunk = JStr t \<and> parse t = Some (JObj kvs))"
    and "\<not> truthy (get_prop (JObj kvs) ''_index'')
         \<or> \<not> truthy (get_prop (JObj kvs) ''_type'')
         \<or> \<not> truthy (get_prop (JObj kvs) ''_id'')"
  shows "parseChunk parse chunk s =
           Inr (None, emit (Emit_error (Msg
             (if \<not> truthy (get_prop (JObj kvs) ''_index'') then ''invalid index specified''
              else if \<not> truthy (get_prop (JObj kvs) ''_type'') then ''invalid type specified''
              else ''invalid id specified''))) s)"
proof -
  from assms(1)
  have c: "(case chunk of JStr t \<Rightarrow> parse t | _ \<Rightarrow> Some chunk) = Some (JObj kvs)"
    by auto
  show ?thesis
    unfolding parseChunk_def c using assms(2) by auto
qed

text \<open>
  C8. A record (an object, or a string that \<open>JSON.parse\<close> turns into one) whose
  \<open>_index\<close>, \<open>_type\<close> or \<open>_id\<close> is missing or empty: the write returns, the buffer and
  the pending calls are as before, \<open>error\<close> has grown by 1, and exactly one error event
  has been emitted (followed by the call of \<open>next\<close> unless the stream is flooding). Its
  message names the first missing field in the order index, type, id, and the three
  messages differ.
\<close>

theorem C8_missing_field:
  assumes "chunk = JObj kvs \<or> (chunk = JStr t \<and> parse t = Some (JObj kvs))"
    and "\<not> truthy (get_prop (JObj kvs) ''_index'')
         \<or> \<not> truthy (get_prop (JObj kvs) ''_type'')
         \<or> \<not> truthy (get_prop (JObj kvs) ''_id'')"
  shows "(\<exists>s'. write_chunk parse chunk next s = Inr s'
      \<and> buffer s' = buffer s \<and> inflight s' = inflight s \<and> error s' = error s + 1
      \<and> emitted s' = emitted s
           @ [Emit_error (Msg (if \<not> truthy (get_prop (JObj kvs) ''_index'')
                                 then ''invalid index specified''
                               else if \<not> truthy (get_prop (JObj kvs) ''_type'')
                                 then ''invalid type specified''
                               else ''invalid id specified''))]
           @ (if flooding s then [] else [Call_next next]))
    \<and> ''invalid index specified'' \<noteq> ''invalid type specified''
    \<and> ''invalid index specified'' \<noteq> ''invalid id specified''
    \<and> ''invalid type specified'' \<noteq> ''invalid id specified''"
proof -
  have p: "parseChunk parse chunk s =
           Inr (None, emit (Emit_error (Msg
             (if \<not> truthy (get_prop (JObj kvs) ''_index'') then ''invalid index specified''
              else if \<not> truthy (get_prop (JObj kvs) ''_type'') then ''invalid type specified''
              else ''invalid id specified''))) s)"
    using assms by (rule parseChunk_record)
  show ?thesis
    by (simp add: write_chunk_def p Let_def)
qed

theorem C8_missing_field_witness:
  "(ex_no_type = JObj [(''_index'', JStr ''idx''), (''_id'', JNum 1), (''data'', JNull)]
      \<or> (ex_no_type = JStr '''' \<and>
          no_json '''' = Some (JObj [(''_index'', JStr ''idx''), (''_id'', JNum 1), (''data'', JNull)])))
   \<and> \<not> truthy (get_prop ex_no_type ''_type'')
   \<and> (\<exists>s'. write_chunk no_json ex_no_type 7 (BufferedBulkStream None) = Inr s'
         \<and> buffer s' = [] \<and> error s' = 1
         \<and> emitted s' = [Emit_error (Msg ''invalid type specified''), Call_next 7])"
proof -
  have h1: "ex_no_type = JObj [(''_index'', JStr ''idx''), (''_id'', JNum 1), (''data'', JNull)]
      \<or> (ex_no_type = JStr '''' \<and>
          no_json '''' = Some (JObj [(''_index'', JStr ''idx''), (''_id'', JNum 1), (''data'', JNull)]))"
    by (simp add: ex_no_type_def)
  have h2: "\<not> truthy (get_prop (JObj [(''_index'', JStr ''idx''), (''_id'', JNum 1), (''data'', JNull)]) ''_index'')
         \<or> \<not> truthy (get_prop (JObj [(''_index'', JStr ''idx''), (''_id'', JNum 1), (''data'', JNull)]) ''_type'')
         \<or> \<not> truthy (get_prop (JObj [(''_index'', JStr ''idx''), (''_id'', JNum 1), (''data'', JNull)]) ''_id'')"
    by simp
  have h3: "\<not> truthy (get_prop ex_no_type ''_type'')"
    by (simp add: ex_no_type_def)
  have i: "buffer (BufferedBulkStream None) = []" "error (BufferedBulkStream None) = 0"
    "emitted (BufferedBulkStream None) = []" "flooding (BufferedBulkStream None) = False"
    by (simp_all add: BufferedBulkStream_def default_options_def)
  from C8_missing_field [of ex_no_type "[(''_index'', JStr ''idx''), (''_id'', JNum 1), (''data'', JNull)]"
         "[]" no_json 7 "BufferedBulkStream None", OF h1 h2]
  have "\<exists>s'. write_chunk no_json ex_no_type 7 (BufferedBulkStream None) = Inr s'
         \<and> buffer s' = [] \<and> error s' = 1
         \<and> emitted s' = [Emit_error (Msg ''invalid type specified''), Call_next 7]"
    by (simp add: i) blast
  with h1 h3 show ?thesis by (intro conjI)
qed

subsection \<open>Whole pairs only\<close>

lemma dispatched_simps [simp]:
  "dispatched [] = []"
  "dispatched (es @ es') = dispatched es @ dispatched es'"
  "dispatched (Client_bulk wb # es) = wb # dispatched es"
  "dispatched (Emit_error x # es) = dispatched es"
  "dispatched (Emit_stats y # es) = dispatched es"
  "dispatched (Call_next n # es) = dispatched es"
  by (simp_all add: dispatched_def)

lemma pairs_only_emit_other:
  "dispatched [e] = [] \<Longrightarrow> pairs_only (emit e s) = pairs_only s"
  by (simp add: pairs_only_def)

lemma emitted_emitStats: "emitted (emitStats s) = emitted s @ [Emit_stats (stats_snapshot s)]"
  by (simp add: emitStats_def)

lemma pairs_only_emitStats [simp]: "pairs_only (emitStats s) = pairs_only s"
  by (simp add: pairs_only_def emitted_emitStats)

lemma even_length_take: "even n \<Longrightarrow> even (length xs) \<Longrightarrow> even (length (take n xs))"
  by (simp add: min_def)

lemma even_length_drop: "even n \<Longrightarrow> even (length xs) \<Longrightarrow> even (length (drop n xs))"
  by simp

lemma even_nat_twice: "even (nat (b * 2))"
proof -
  have "nat (b * 2) = 2 * nat b" by (simp add: nat_mult_distrib)
  then show ?thesis by simp
qed

lemma pairs_only_flush: "pairs_only s \<Longrightarrow> pairs_only (flush force s)"
  by (simp add: flush_def Let_def pairs_only_def emitted_emitStats even_nat_twice min_def)

lemma length_retry_pairs: "length (retry_pairs wb js) = 2 * length js"
  by (induction js) (simp_all add: retry_pairs_def)

lemma handle_code_dispatched:
  "dispatched (emitted (handle_code wb items codes s code)) = dispatched (emitted s)"
  by (simp add: handle_code_def foldl_retry_item foldl_emit dispatched_def)

lemma foldl_handle_code_dispatched:
  "dispatched (emitted (foldl (handle_code wb items codes) s ks)) = dispatched (emitted s)"
  by (induction ks arbitrary: s) (simp_all add: handle_code_dispatched)

lemma validate_dispatched:
  "dispatched (emitted (validateBulkResponse wb items rnd s)) = dispatched (emitted s)"
  by (simp add: validateBulkResponse_def Let_def foldl_handle_code_dispatched)

lemma pairs_only_validate:
  "pairs_only s \<Longrightarrow> pairs_only (validateBulkResponse wb items rnd s)"
  by (simp add: pairs_only_def validate_dispatched validate_buffer length_retry_pairs)

lemma pairs_only_call_resume: "pairs_only (call_resume s) = pairs_only s"
  by (simp add: call_resume_def pairs_only_def split: option.splits)

lemma pairs_only_upd [simp]:
  "pairs_only (s\<lparr> active_requests := a \<rparr>) = pairs_only s"
  "pairs_only (s\<lparr> error := e \<rparr>) = pairs_only s"
  "pairs_only (s\<lparr> ok := k \<rparr>) = pairs_only s"
  "pairs_only (s\<lparr> flooding := f \<rparr>) = pairs_only s"
  "pairs_only (s\<lparr> timeout := t \<rparr>) = pairs_only s"
  "pairs_only (s\<lparr> resumeFunction := r \<rparr>) = pairs_only s"
  "pairs_only (s\<lparr> inflight := i \<rparr>) = pairs_only s"
  by (simp_all add: pairs_only_def)

lemma pairs_only_bulk_callback:
  assumes "pairs_only s"
  shows "pairs_only (bulk_callback wb err resp rnd s)"
proof (cases "truthy err")
  case True
  with assms show ?thesis
    by (simp add: bulk_callback_def Let_def pairs_only_emit_other)
next
  case False
  show ?thesis
  proof (cases resp)
    case None
    with False assms show ?thesis
      by (simp add: bulk_callback_def Let_def pairs_only_emit_other)
  next
    case (Some r)
    obtain items where r: "r = Response items" by (cases r)
    show ?thesis
    proof (cases items)
      case None
      with False assms Some r show ?thesis
        by (simp add: bulk_callback_def Let_def pairs_only_emit_other)
    next
      case (Some its)
      have "pairs_only (validateBulkResponse wb its rnd (s\<lparr> active_requests := active_requests s - 1 \<rparr>))"
        using assms by (intro pairs_only_validate) simp
      with False \<open>resp = Some r\<close> r Some show ?thesis
        by (simp add: bulk_callback_def Let_def pairs_only_call_resume)
    qed
  qed
qed

lemma parseChunk_cases:
  "parseChunk parse chunk s = Inl TypeError
   \<or> (\<exists>m. parseChunk parse chunk s = Inr (None, emit (Emit_error (Msg m)) s))
   \<or> (\<exists>r. parseChunk parse chunk s = Inr (Some r, s))"
proof -
  obtain c where c: "(case chunk of JStr t \<Rightarrow> parse t | _ \<Rightarrow> Some chunk) = c"
    by simp
  show ?thesis
    unfolding parseChunk_def c by (cases c) auto
qed

lemma pairs_only_write:
  assumes "pairs_only s" and "write_chunk parse chunk next s = Inr s'"
  shows "pairs_only s'"
proof -
  from parseChunk_cases [of parse chunk s]
  consider (err) "parseChunk parse chunk s = Inl TypeError"
    | (rej) m where "parseChunk parse chunk s = Inr (None, emit (Emit_error (Msg m)) s)"
    | (acc) r where "parseChunk parse chunk s = Inr (Some r, s)"
    by blast
  then show ?thesis
  proof cases
    case err
    with assms(2) show ?thesis by (simp add: write_chunk_def)
  next
    case rej
    with assms show ?thesis
      by (auto simp: write_chunk_def Let_def pairs_only_emit_other split: if_splits)
  next
    case acc
    have "pairs_only (flush False (s\<lparr> ok := ok s + 1,
            buffer := buffer s @ [descriptor r, get_prop r ''data''] \<rparr>))"
      using assms(1) by (intro pairs_only_flush) (simp add: pairs_only_def)
    with acc assms(2) show ?thesis
      by (auto simp: write_chunk_def Let_def pairs_only_emit_other split: if_splits)
  qed
qed

lemma pairs_only_step: "pairs_only s \<Longrightarrow> pairs_only (step parse s i)"
  by (cases i)
     (auto simp: step_def pairs_only_flush pairs_only_bulk_callback
           intro: pairs_only_write split: sum.splits)

lemma pairs_only_run: "pairs_only s \<Longrightarrow> pairs_only (run parse ins s)"
  unfolding run_def by (induction ins arbitrary: s) (simp_all add: pairs_only_step)

lemma pairs_only_init: "pairs_only (BufferedBulkStream opts)"
  by (simp add: pairs_only_def BufferedBulkStream_def Let_def)

lemma even_short: "even (length xs) \<Longrightarrow> (length xs < 2) = (xs = [])"
  by (cases xs) (auto simp: less_Suc_eq)

lemma parseChunk_accept:
  assumes "chunk = JObj kvs \<or> (chunk = JStr t \<and> parse t = Some (JObj kvs))"
    and "truthy (get_prop (JObj kvs) ''_index'')"
    and "truthy (get_prop (JObj kvs) ''_type'')"
    and "truthy (get_prop (JObj kvs) ''_id'')"
  shows "parseChunk parse chunk s = Inr (Some (JObj kvs), s)"
proof -
  from assms(1)
  have c: "(case chunk of JStr t \<Rightarrow> parse t | _ \<Rightarrow> Some chunk) = Some (JObj kvs)"
    by auto
  show ?thesis
    unfolding parseChunk_def c using assms(2-4) by simp
qed

lemma nat_twice: "nat (b * 2) = 2 * nat b"
  by (simp add: nat_mult_distrib)

lemma flush_dispatched:
  "dispatched (emitted (flush force s)) =
     dispatched (emitted s) @
       (if length (buffer s) < 2 \<or>
           (\<not> force \<and> rat_of_nat (length (buffer s)) / 2 < rat_of_int (opt_buffer s))
        then [] else [take (nat (opt_buffer s * 2)) (buffer s)])"
  by (simp add: flush_def Let_def emitted_emitStats)

lemma write_accept_buffer:
  assumes "chunk = JObj kvs \<or> (chunk = JStr t \<and> parse t = Some (JObj kvs))"
    and "truthy (get_prop (JObj kvs) ''_index'')"
    and "truthy (get_prop (JObj kvs) ''_type'')"
    and "truthy (get_prop (JObj kvs) ''_id'')"
  shows "\<exists>s'. write_chunk parse chunk next s = Inr s'
      \<and> buffer s' =
          (if rat_of_nat (length (buffer s) + 2) / 2 < rat_of_int (opt_buffer s)
           then buffer s @ [descriptor (JObj kvs), get_prop (JObj kvs) ''data'']
           else drop (2 * nat (opt_buffer s))
                  (buffer s @ [descriptor (JObj kvs), get_prop (JObj kvs) ''data'']))"
proof -
  have p: "parseChunk parse chunk s = Inr (Some (JObj kvs), s)"
    using assms by (rule parseChunk_accept)
  show ?thesis
    by (simp add: write_chunk_def p Let_def flush_buffer nat_twice del: get_prop.simps)
qed

text \<open>
  C10. After any sequence of writes, timer firings, end events and completed calls on a
  new stream, the buffer has an even number of elements and so has every batch handed to
  the client; hence the buffer has fewer than 2 elements only when it is empty. The
  operations change the buffer by whole pairs: the write of an accepted record appends
  exactly its descriptor and its document, in that order, before the flush it calls; a
  \<open>flush\<close> that passes its two guards removes exactly the first \<open>2 * batch size\<close>
  elements (all of them when there are fewer) and hands exactly these to the client, and
  otherwise removes and sends nothing; classifying a response appends exactly two
  elements for each item with status 503.
\<close>

theorem C10_even_buffer:
  "even (length (buffer (run parse ins (BufferedBulkStream opts))))
   \<and> list_all (\<lambda>writeBuffer. even (length writeBuffer))
        (dispatched (emitted (run parse ins (BufferedBulkStream opts))))
   \<and> (length (buffer (run parse ins (BufferedBulkStream opts))) < 2) =
       (buffer (run parse ins (BufferedBulkStream opts)) = [])
   \<and> ((chunk = JObj kvs \<or> (chunk = JStr t \<and> parse t = Some (JObj kvs)))
        \<and> truthy (get_prop (JObj kvs) ''_index'')
        \<and> truthy (get_prop (JObj kvs) ''_type'')
        \<and> truthy (get_prop (JObj kvs) ''_id'')
        \<longrightarrow> (\<exists>s'. write_chunk parse chunk next s = Inr s'
              \<and> buffer s' =
                  (if rat_of_nat (length (buffer s) + 2) / 2 < rat_of_int (opt_buffer s)
                   then buffer s @ [descriptor (JObj kvs), get_prop (JObj kvs) ''data'']
                   else drop (2 * nat (opt_buffer s))
                          (buffer s @ [descriptor (JObj kvs), get_prop (JObj kvs) ''data'']))))
   \<and> buffer (flush force s) =
       (if length (buffer s) < 2 \<or>
           (\<not> force \<and> rat_of_nat (length (buffer s)) / 2 < rat_of_int (opt_buffer s))
        then buffer s else drop (2 * nat (opt_buffer s)) (buffer s))
   \<and> dispatched (emitted (flush force s)) =
       dispatched (emitted s) @
         (if length (buffer s) < 2 \<or>
             (\<not> force \<and> rat_of_nat (length (buffer s)) / 2 < rat_of_int (opt_buffer s))
          then [] else [take (2 * nat (opt_buffer s)) (buffer s)])
   \<and> length (take (2 * nat (opt_buffer s)) (buffer s)) =
       min (2 * nat (opt_buffer s)) (length (buffer s))
   \<and> length (buffer (validateBulkResponse writeBuffer items rnd s)) =
       length (buffer s)
         + 2 * length (filter (\<lambda>i. item_status (items ! i) = 503) [0..<length items])"
proof (intro conjI impI)
  have inv: "pairs_only (run parse ins (BufferedBulkStream opts))"
    by (rule pairs_only_run) (rule pairs_only_init)
  from inv show "even (length (buffer (run parse ins (BufferedBulkStream opts))))"
    by (simp add: pairs_only_def)
  from inv show "list_all (\<lambda>writeBuffer. even (length writeBuffer))
        (dispatched (emitted (run parse ins (BufferedBulkStream opts))))"
    by (simp add: pairs_only_def)
  from inv show "(length (buffer (run parse ins (BufferedBulkStream opts))) < 2) =
       (buffer (run parse ins (BufferedBulkStream opts)) = [])"
    by (simp add: pairs_only_def even_short)
next
  assume a: "(chunk = JObj kvs \<or> (chunk = JStr t \<and> parse t = Some (JObj kvs)))
        \<and> truthy (get_prop (JObj kvs) ''_index'')
        \<and> truthy (get_prop (JObj kvs) ''_type'')
        \<and> truthy (get_prop (JObj kvs) ''_id'')"
  show "\<exists>s'. write_chunk parse chunk next s = Inr s'
              \<and> buffer s' =
                  (if rat_of_nat (length (buffer s) + 2) / 2 < rat_of_int (opt_buffer s)
                   then buffer s @ [descriptor (JObj kvs), get_prop (JObj kvs) ''data'']
                   else drop (2 * nat (opt_buffer s))
                          (buffer s @ [descriptor (JObj kvs), get_prop (JObj kvs) ''data'']))"
    by (rule write_accept_buffer) (use a in blast)+
next
  show "buffer (flush force s) =
       (if length (buffer s) < 2 \<or>
           (\<not> force \<and> rat_of_nat (length (buffer s)) / 2 < rat_of_int (opt_buffer s))
        then buffer s else drop (2 * nat (opt_buffer s)) (buffer s))"
    by (simp only: flush_buffer nat_twice)
  show "dispatched (emitted (flush force s)) =
       dispatched (emitted s) @
         (if length (buffer s) < 2 \<or>
             (\<not> force \<and> rat_of_nat (length (buffer s)) / 2 < rat_of_int (opt_buffer s))
          then [] else [take (2 * nat (opt_buffer s)) (buffer s)])"
    by (simp only: flush_dispatched nat_twice)
  show "length (take (2 * nat (opt_buffer s)) (buffer s)) =
       min (2 * nat (opt_buffer s)) (length (buffer s))"
    by simp
  show "length (buffer (validateBulkResponse writeBuffer items rnd s)) =
       length (buffer s)
         + 2 * length (filter (\<lambda>i. item_status (items ! i) = 503) [0..<length items])"
    by (simp add: validate_buffer length_retry_pairs)
qed

theorem C10_even_buffer_witness:
  "(ex_record 1 = JObj [(''_index'', JStr ''idx''), (''_type'', JStr ''doc''),
                        (''_id'', JNum 1), (''data'', JObj [(''n'', JNum 1)])]
      \<or> (ex_record 1 = JStr [] \<and>
          no_json [] = Some (JObj [(''_index'', JStr ''idx''), (''_type'', JStr ''doc''),
                        (''_id'', JNum 1), (''data'', JObj [(''n'', JNum 1)])])))
   \<and> truthy (get_prop (ex_record 1) ''_index'')
   \<and> truthy (get_prop (ex_record 1) ''_type'')
   \<and> truthy (get_prop (ex_record 1) ''_id'')
   \<and> (\<exists>s'. write_chunk no_json (ex_record 1) 1 (BufferedBulkStream (Some (ex_options 2 20))) = Inr s'
         \<and> buffer s' = ex_batch [1])
   \<and> (\<exists>s'. write_chunk no_json (ex_record 1) 1 (BufferedBulkStream (Some (ex_options 1 20))) = Inr s'
         \<and> buffer s' = [])"
proof -
  let ?kvs = "[(''_index'', JStr ''idx''), (''_type'', JStr ''doc''),
               (''_id'', JNum 1), (''data'', JObj [(''n'', JNum 1)])]"
  have r: "ex_record 1 = JObj ?kvs" by (simp add: ex_record_def)
  have h1: "ex_record 1 = JObj ?kvs \<or> (ex_record 1 = JStr [] \<and> no_json [] = Some (JObj ?kvs))"
    using r by simp
  have h2: "truthy (get_prop (JObj ?kvs) ''_index'')" by simp
  have h3: "truthy (get_prop (JObj ?kvs) ''_type'')" by simp
  have h4: "truthy (get_prop (JObj ?kvs) ''_id'')" by simp
  have h: "(ex_record 1 = JObj ?kvs \<or> (ex_record 1 = JStr [] \<and> no_json [] = Some (JObj ?kvs)))
        \<and> truthy (get_prop (JObj ?kvs) ''_index'')
        \<and> truthy (get_prop (JObj ?kvs) ''_type'')
        \<and> truthy (get_prop (JObj ?kvs) ''_id'')"
    using h1 h2 h3 h4 by (intro conjI)
  have i2: "buffer (BufferedBulkStream (Some (ex_options 2 20))) = []"
    "opt_buffer (BufferedBulkStream (Some (ex_options 2 20))) = 2"
    by (simp_all add: BufferedBulkStream_def ex_options_def)
  have i1: "buffer (BufferedBulkStream (Some (ex_options 1 20))) = []"
    "opt_buffer (BufferedBulkStream (Some (ex_options 1 20))) = 1"
    by (simp_all add: BufferedBulkStream_def ex_options_def)
  have d: "[descriptor (JObj ?kvs), get_prop (JObj ?kvs) ''data''] = ex_batch [1]"
    by (simp add: ex_batch_def ex_record_def)
  note t2 = C10_even_buffer [of no_json "[]" None "ex_record 1" ?kvs "[]" 1
              "BufferedBulkStream (Some (ex_options 2 20))" False "[]" "[]" False]
  note t1 = C10_even_buffer [of no_json "[]" None "ex_record 1" ?kvs "[]" 1
              "BufferedBulkStream (Some (ex_options 1 20))" False "[]" "[]" False]
  have w2: "\<exists>s'. write_chunk no_json (ex_record 1) 1 (BufferedBulkStream (Some (ex_options 2 20))) = Inr s'
         \<and> buffer s' = ex_batch [1]"
    using t2 [THEN conjunct2, THEN conjunct2, THEN conjunct2, THEN conjunct1, THEN mp, OF h]
    unfolding i2 d by simp
  have w1: "\<exists>s'. write_chunk no_json (ex_record 1) 1 (BufferedBulkStream (Some (ex_options 1 20))) = Inr s'
         \<and> buffer s' = []"
    using t1 [THEN conjunct2, THEN conjunct2, THEN conjunct2, THEN conjunct1, THEN mp, OF h]
    unfolding i1 d by (simp add: ex_batch_def)
  have g: "truthy (get_prop (ex_record 1) ''_index'')" "truthy (get_prop (ex_record 1) ''_type'')"
    "truthy (get_prop (ex_record 1) ''_id'')"
    by (simp_all add: ex_record_def)
  from h1 g w2 w1 show ?thesis by (intro conjI)
qed

subsection \<open>Failure of a whole batch\<close>

lemma bulk_callback_failure:
  assumes "truthy err \<or> resp = None \<or> resp = Some (Response None)"
  shows "\<exists>e. bulk_callback writeBuffer err resp rnd s =
           emit (Emit_error e)
             (s\<lparr> active_requests := active_requests s - 1,
                error := error s + writeBufferTotal s \<rparr>)"
  using assms by (auto simp: bulk_callback_def Let_def)

text \<open>
  C4. The amount added to \<open>error\<close> is the global \<open>writeBufferTotal\<close> at the time
  the callback runs, which is the size of the batch sent last. Here the batch of two
  pairs fails while \<open>writeBufferTotal\<close> holds the size 1 of the later batch: one error
  event is emitted and \<open>error\<close> goes from 0 to 1, not to 2.
\<close>

theorem C4_error_counts_latest_batch:
  "inflight ex_two_inflight = [ex_batch [1, 2], ex_batch [3]]
   \<and> error ex_two_inflight = 0
   \<and> error (step no_json ex_two_inflight (Complete 0 (JStr ''boom'') None False)) = 1
   \<and> error_events (emitted (step no_json ex_two_inflight (Complete 0 (JStr ''boom'') None False))) =
       [IndexError (JStr ''boom'') JNull (RespWhole None)]"
  by code_simp

subsection \<open>Release of backpressure\<close>

text \<open>Every path of the callback decrements \<open>active_requests\<close> once.\<close>

lemma handle_code_active_requests:
  "active_requests (handle_code wb items codes s code) = active_requests s"
  by (simp add: handle_code_def foldl_retry_item foldl_emit)

lemma foldl_handle_code_active_requests:
  "active_requests (foldl (handle_code wb items codes) s ks) = active_requests s"
  by (induction ks arbitrary: s) (simp_all add: handle_code_active_requests)

lemma validate_active_requests:
  "active_requests (validateBulkResponse wb items rnd s) = active_requests s"
  by (simp add: validateBulkResponse_def Let_def foldl_handle_code_active_requests)

lemma call_resume_active_requests: "active_requests (call_resume s) = active_requests s"
  by (simp add: call_resume_def split: option.splits)

lemma bulk_callback_decrements:
  "active_requests (bulk_callback wb err resp rnd s) = active_requests s - 1"
proof (cases "truthy err")
  case True
  then show ?thesis by (simp add: bulk_callback_def Let_def)
next
  case False
  show ?thesis
  proof (cases resp)
    case None
    with False show ?thesis by (simp add: bulk_callback_def Let_def)
  next
    case (Some r)
    obtain items where r: "r = Response items" by (cases r)
    show ?thesis
    proof (cases items)
      case None
      with False Some r show ?thesis by (simp add: bulk_callback_def Let_def)
    next
      case (Some its)
      with False \<open>resp = Some r\<close> r show ?thesis
        by (simp add: bulk_callback_def Let_def validate_active_requests
              call_resume_active_requests)
    qed
  qed
qed

text \<open>
  C5. With a batch size of 1 and a throttle of 1, the first write sends a batch and sets
  \<open>flooding\<close>, so \<open>next\<close> is not called. When the call fails, the callback returns
  before the resume test: \<open>active_requests\<close> is 0, below the throttle 1, and the stream
  is still flooding with no continuation called. When the same call succeeds, flooding
  is cleared and the continuation of the write is called once.
\<close>

theorem C5_failure_leaves_flooding:
  "flooding (run no_json [Write (ex_record 1) 1, Complete 0 (JStr ''boom'') None False]
       (BufferedBulkStream (Some (ex_options 1 1))))
   \<and> active_requests (run no_json [Write (ex_record 1) 1, Complete 0 (JStr ''boom'') None False]
       (BufferedBulkStream (Some (ex_options 1 1)))) = 0
   \<and> opt_throttle (run no_json [Write (ex_record 1) 1, Complete 0 (JStr ''boom'') None False]
       (BufferedBulkStream (Some (ex_options 1 1)))) = 1
   \<and> next_calls (emitted (run no_json [Write (ex_record 1) 1, Complete 0 (JStr ''boom'') None False]
       (BufferedBulkStream (Some (ex_options 1 1))))) = []
   \<and> \<not> flooding (run no_json [Write (ex_record 1) 1,
         Complete 0 JNull (Some (Response (Some [ex_item 201]))) False]
       (BufferedBulkStream (Some (ex_options 1 1))))
   \<and> next_calls (emitted (run no_json [Write (ex_record 1) 1,
         Complete 0 JNull (Some (Response (Some [ex_item 201]))) False]
       (BufferedBulkStream (Some (ex_options 1 1))))) = [1]"
  by code_simp

subsection \<open>The queued figure\<close>

text \<open>
  C7. \<open>_write\<close> counts a rejected record in the same \<open>error\<close> counter that the stats
  event subtracts from \<open>written\<close>. With a batch size of 1, a record without fields is
  written, then a valid one, whose batch is answered with status 201: the two stats
  events report a queued figure of 0 and then of -1.
\<close>

theorem C7_negative_queued:
  "map snap_queued (stats_events (emitted (run no_json
      [Write (JObj []) 1, Write (ex_record 2) 2,
       Complete 0 JNull (Some (Response (Some [ex_item 201]))) False]
      (BufferedBulkStream (Some (ex_options 1 20)))))) = [0, - 1]"
  by code_simp

end
